theory Spec2Isabelle
  imports Complex_Main "HOL-Library.AList"
begin

section \<open>Python strings\<close>

text \<open>
  A Python \<open>str\<close> is modelled as a \<open>string\<close> whose characters are the code points
  below 256, so \<open>length\<close> counts code points as \<open>len\<close> does. The helpers below follow
  \<open>str.split()\<close>, \<open>str.join\<close>, \<open>str.lower\<close>, \<open>str.strip\<close> and the \<open>in\<close> operator
  on that range.
\<close>

definition is_space :: "char \<Rightarrow> bool" where
  "is_space c = ((of_char c :: nat) \<in> {9, 10, 11, 12, 13, 28, 29, 30, 31, 32, 133, 160})"

definition lower_char :: "char \<Rightarrow> char" where
  "lower_char c = (let n = (of_char c :: nat) in
     if (65 \<le> n \<and> n \<le> 90) \<or> (192 \<le> n \<and> n \<le> 222 \<and> n \<noteq> 215)
     then char_of (n + 32) else c)"

definition py_lower :: "string \<Rightarrow> string" where
  "py_lower s = map lower_char s"

definition py_strip :: "string \<Rightarrow> string" where
  "py_strip s = rev (dropWhile is_space (rev (dropWhile is_space s)))"

fun split_from :: "string \<Rightarrow> string \<Rightarrow> string list" where
  "split_from cur [] = (if cur = [] then [] else [cur])"
| "split_from cur (c # cs) =
     (if is_space c then (if cur = [] then split_from [] cs else cur # split_from [] cs)
      else split_from (cur @ [c]) cs)"

definition py_split :: "string \<Rightarrow> string list" where
  "py_split s = split_from [] s"

fun py_join :: "string \<Rightarrow> string list \<Rightarrow> string" where
  "py_join sep [] = []"
| "py_join sep [x] = x"
| "py_join sep (x # y # ys) = x @ sep @ py_join sep (y # ys)"





section \<open>Screenshot storage\<close>

text \<open>
  \<open>_stored_screenshot\<close> is the module slot. An image is identified by the number of the
  \<open>ImageGrab.grab()\<close> call that produced it; \<open>grabs\<close> counts the calls made so far.
  Whether a grab succeeds is decided by the display, \<open>display n\<close> for the call number
  \<open>n\<close>; a failing grab raises. PIL images are always truthy, so the test
  \<open>if _stored_screenshot\<close> is the test for \<open>None\<close>.
\<close>

type_synonym image = nat

datatype grab_error = GrabFailed

record screenshot_state =
  stored_screenshot :: "image option"
  grabs :: nat

definition ImageGrab_grab :: "(nat \<Rightarrow> bool) \<Rightarrow> screenshot_state \<Rightarrow> (grab_error + image) \<times> screenshot_state" where
  "ImageGrab_grab display s =
     (if display (grabs s) then (Inr (grabs s), s\<lparr>grabs := Suc (grabs s)\<rparr>)
      else (Inl GrabFailed, s\<lparr>grabs := Suc (grabs s)\<rparr>))"

definition store_screenshot :: "(nat \<Rightarrow> bool) \<Rightarrow> screenshot_state \<Rightarrow> (grab_error + image) \<times> screenshot_state" where
  "store_screenshot display s =
     (case ImageGrab_grab display s of
        (Inl e, s') \<Rightarrow> (Inl e, s')
      | (Inr img, s') \<Rightarrow> (Inr img, s'\<lparr>stored_screenshot := Some img\<rparr>))"

definition get_stored_screenshot :: "(nat \<Rightarrow> bool) \<Rightarrow> screenshot_state \<Rightarrow> (grab_error + image) \<times> screenshot_state" where
  "get_stored_screenshot display s =
     (case stored_screenshot s of
        Some img \<Rightarrow> (Inr img, s\<lparr>stored_screenshot := None\<rparr>)
      | None \<Rightarrow>
          (case ImageGrab_grab display s of
             (Inl e, s') \<Rightarrow> (Inl e, s')
           | (Inr img, s') \<Rightarrow> (Inr img, s'\<lparr>stored_screenshot := None\<rparr>)))"

section \<open>Vision engine: batch normalizer\<close>

text \<open>
  A model function call carries a name and arguments; the normalizer of
  \<open>SingleCallVisionEngine._normalize_function_call_batch\<close> looks at names only.
\<close>

record function_call =
  fc_name :: string
  fc_args :: "(string \<times> string) list"

definition POSITIONING_TOOLS :: "string list" where
  "POSITIONING_TOOLS = [''go_to_element'', ''crop_and_search'']"

definition CLICK_TOOL_TO_TYPE :: "(string \<times> string) list" where
  "CLICK_TOOL_TO_TYPE =
     [(''click_left_click'', ''left click''),
      (''click_double_left_click'', ''double left click''),
      (''click_right_click'', ''right click'')]"

definition is_positioning :: "function_call \<Rightarrow> bool" where
  "is_positioning c = (fc_name c \<in> set POSITIONING_TOOLS)"

definition is_click :: "function_call \<Rightarrow> bool" where
  "is_click c = (fc_name c \<in> set (map fst CLICK_TOOL_TO_TYPE))"

definition is_complete :: "function_call \<Rightarrow> bool" where
  "is_complete c = (fc_name c = ''task_is_complete'')"

definition normalize_function_call_batch :: "function_call list \<Rightarrow> function_call list" where
  "normalize_function_call_batch function_calls =
     (if length function_calls \<le> 1 then function_calls
      else
        (let first = function_calls ! 0 in
         if is_complete first then [first]
         else
           (let second = function_calls ! 1 in
            if is_positioning first \<and> is_click second then
              (if length function_calls \<ge> 3 \<and> is_complete (function_calls ! 2)
               then take 3 function_calls
               else take 2 function_calls)
            else if is_click first \<and> is_complete second then take 2 function_calls
            else [first])))"

text \<open>The three batch shapes the specification lists, and the fourth the code also allows.\<close>

fun position_click_pair :: "function_call list \<Rightarrow> bool" where
  "position_click_pair [p, c] = (is_positioning p \<and> is_click c)"
| "position_click_pair cs = False"

fun position_click_complete_triple :: "function_call list \<Rightarrow> bool" where
  "position_click_complete_triple [p, c, t] = (is_positioning p \<and> is_click c \<and> is_complete t)"
| "position_click_complete_triple cs = False"

fun click_complete_pair :: "function_call list \<Rightarrow> bool" where
  "click_complete_pair [c, t] = (is_click c \<and> is_complete t)"
| "click_complete_pair cs = False"

definition listed_batch_shape :: "function_call list \<Rightarrow> bool" where
  "listed_batch_shape cs =
     (length cs \<le> 1 \<or> position_click_pair cs \<or> position_click_complete_triple cs)"

definition click_count :: "function_call list \<Rightarrow> nat" where
  "click_count cs = length (filter is_click cs)"

fun no_consecutive_clicks :: "function_call list \<Rightarrow> bool" where
  "no_consecutive_clicks (a # b # cs) = (\<not> (is_click a \<and> is_click b) \<and> no_consecutive_clicks (b # cs))"
| "no_consecutive_clicks cs = True"

definition call :: "string \<Rightarrow> function_call" where
  "call n = \<lparr>fc_name = n, fc_args = []\<rparr>"

section \<open>Overlay transport: input de-duplication\<close>

text \<open>
  The \<open>overlay_input\<close> branch of \<open>VisualizationServer._handle_client\<close>. Times are the
  readings of \<open>time.monotonic()\<close>, taken as exact reals; \<open>10.0\<close> is \<open>10\<close> and \<open>1.2\<close>
  is \<open>6/5\<close>. The dictionary \<open>_seen_overlay_request_ids\<close> is a map from request id to
  the time it was recorded. A payload field is \<open>None\<close> when absent or null.
  \<open>on_overlay_input\<close> tells whether a handler is registered.
\<close>

record overlay_payload =
  p_text :: string
  p_requestId :: "string option"
  p_request_id :: "string option"

record server_state =
  seen_overlay_request_ids :: "string \<rightharpoonup> real"
  last_overlay_text :: string
  last_overlay_ts :: real
  on_overlay_input :: bool

text \<open>Python's \<open>a or b\<close> on optional strings: the first truthy operand, else the second.\<close>

definition py_or :: "string option \<Rightarrow> string option \<Rightarrow> string option" where
  "py_or a b = (case a of Some s \<Rightarrow> (if s \<noteq> [] then Some s else b) | None \<Rightarrow> b)"

definition truthy :: "string option \<Rightarrow> bool" where
  "truthy a = (case a of Some s \<Rightarrow> s \<noteq> [] | None \<Rightarrow> False)"

definition request_id_of :: "overlay_payload \<Rightarrow> string option" where
  "request_id_of payload = py_or (p_requestId payload) (p_request_id payload)"

text \<open>Removing the entries older than ten seconds (the \<open>expired\<close> list and its \<open>pop\<close> loop).\<close>

definition drop_expired :: "real \<Rightarrow> (string \<rightharpoonup> real) \<Rightarrow> (string \<rightharpoonup> real)" where
  "drop_expired now seen =
     (\<lambda>rid. case seen rid of
              None \<Rightarrow> None
            | Some ts \<Rightarrow> (if now - ts > 10 then None else Some ts))"

definition invoke_handler :: "server_state \<Rightarrow> string \<Rightarrow> string option" where
  "invoke_handler s text = (if on_overlay_input s then Some text else None)"

text \<open>
  One \<open>overlay_input\<close> event at time \<open>now\<close>. The second component is \<open>Some text\<close> when
  the handler is called with \<open>text\<close>, \<open>None\<close> when the event is dropped or no handler is
  registered.
\<close>

definition handle_overlay_input ::
  "server_state \<Rightarrow> real \<Rightarrow> overlay_payload \<Rightarrow> server_state \<times> string option" where
  "handle_overlay_input s now payload =
     (let text = p_text payload;
          request_id = request_id_of payload
      in if truthy request_id then
           (let seen = drop_expired now (seen_overlay_request_ids s) in
            if seen (the request_id) \<noteq> None
            then (s\<lparr>seen_overlay_request_ids := seen\<rparr>, None)
            else (s\<lparr>seen_overlay_request_ids := seen(the request_id \<mapsto> now)\<rparr>,
                  invoke_handler s text))
         else
           (let normalized = py_join '' '' (py_split text) in
            if normalized \<noteq> [] \<and> normalized = last_overlay_text s
               \<and> now - last_overlay_ts s < 6 / 5
            then (s, None)
            else (s\<lparr>last_overlay_text := normalized, last_overlay_ts := now\<rparr>,
                  invoke_handler s text)))"

fun handle_events ::
  "server_state \<Rightarrow> (real \<times> overlay_payload) list \<Rightarrow> server_state \<times> string option list" where
  "handle_events s [] = (s, [])"
| "handle_events s ((now, payload) # es) =
     (let step = handle_overlay_input s now payload;
          rest = handle_events (fst step) es
      in (fst rest, snd step # snd rest))"





section \<open>Coordinate normalization\<close>







section \<open>Router: direct-response sanitization\<close>








section \<open>Router: the chaining loop\<close>





















text \<open>
  The state of a session. \<open>trace\<close> is the record of what the session did, in order:
  \<open>Delegated sig\<close> when the step with signature \<open>sig\<close> is run (the screen judge or
  \<open>_run_routed_agent_step\<close> is called), \<open>DirectResponse text\<close> when the tool
  \<open>ROUTER_TOOL_MAP["direct_response"]\<close> is called with \<open>text\<close>. The tool is always
  present in the map, and its call is taken to return.
\<close>

datatype event = Delegated "string \<times> string" | DirectResponse string









definition get_count :: "(string \<times> string \<rightharpoonup> nat) \<Rightarrow> string \<times> string \<Rightarrow> nat" where
  "get_count seen sig = (case seen sig of Some c \<Rightarrow> c | None \<Rightarrow> 0)"





fun is_direct :: "event \<Rightarrow> bool" where
  "is_direct (DirectResponse text) = True"
| "is_direct (Delegated sig) = False"

definition direct_responses :: "event list \<Rightarrow> event list" where
  "direct_responses evs = filter is_direct evs"

definition runs_of :: "string \<times> string \<Rightarrow> event list \<Rightarrow> nat" where
  "runs_of sig evs = length (filter (\<lambda>e. e = Delegated sig) evs)"






section \<open>Text panel placement\<close>

text \<open>
  The layout helpers of \<open>agents/clovis/tools.py\<close>. A rectangle is
  \<open>(left, top, right, bottom)\<close>; coordinates are exact reals (the values that occur
  are integers and halves of integers). The live cache \<open>_ACTIVE_TEXT_RECTS\<close> is a
  dictionary from text id to rectangle, kept as an association list in insertion order.
  The panel size comes from \<open>_estimate_text_panel_size\<close>, whose floating-point
  character arithmetic is not modelled: the functions below take the estimate as the
  parameter \<open>estimate\<close>.
\<close>

type_synonym rect = "real \<times> real \<times> real \<times> real"

type_synonym placement = "int \<times> int \<times> rect"

definition TEXT_VIEWPORT_MARGIN_PX :: int where "TEXT_VIEWPORT_MARGIN_PX = 8"
definition TEXT_LAYOUT_STEP_PX :: int where "TEXT_LAYOUT_STEP_PX = 28"
definition TEXT_LAYOUT_MAX_RINGS :: nat where "TEXT_LAYOUT_MAX_RINGS = 10"
definition TEXT_OVERLAP_BUFFER_PX :: real where "TEXT_OVERLAP_BUFFER_PX = 0"

definition clamp :: "real \<Rightarrow> real \<Rightarrow> real \<Rightarrow> real" where
  "clamp v low high = max low (min high v)"

text \<open>Python's \<open>round\<close> to an integer: halves go to the even neighbour.\<close>

definition py_round :: "real \<Rightarrow> int" where
  "py_round x =
     (let f = \<lfloor>x\<rfloor>; d = x - of_int f
      in if d < 1 / 2 then f else if 1 / 2 < d then f + 1 else if even f then f else f + 1)"

definition normalize_align :: "string option \<Rightarrow> string" where
  "normalize_align align =
     (let v = py_lower (py_strip (if truthy align then the align else ''left''))
      in if v \<notin> set [''left'', ''center'', ''right''] then ''left'' else v)"

definition normalize_baseline :: "string option \<Rightarrow> string" where
  "normalize_baseline baseline =
     (let v = py_lower (py_strip (if truthy baseline then the baseline else ''top''))
      in if v \<in> set [''middle'', ''center''] then ''middle''
         else if v = ''bottom'' then ''bottom'' else ''top'')"

definition viewport_dimensions :: "int \<times> int \<Rightarrow> int \<times> int \<Rightarrow> int \<times> int" where
  "viewport_dimensions screen_size viewport_size =
     (let width = (if fst viewport_size \<noteq> 0 then fst viewport_size
                   else if fst screen_size \<noteq> 0 then fst screen_size else 1);
          height = (if snd viewport_size \<noteq> 0 then snd viewport_size
                    else if snd screen_size \<noteq> 0 then snd screen_size else 1)
      in (max width 1, max height 1))"

definition anchor_to_rect ::
  "real \<Rightarrow> real \<Rightarrow> int \<Rightarrow> int \<Rightarrow> string \<Rightarrow> string \<Rightarrow> int \<Rightarrow> int \<Rightarrow> placement" where
  "anchor_to_rect anchor_x anchor_y panel_width panel_height align baseline
       viewport_width viewport_height =
     (let left = (if align = ''center'' then anchor_x - of_int panel_width / 2
                  else if align = ''right'' then anchor_x - of_int panel_width
                  else anchor_x);
          top = (if baseline = ''middle'' then anchor_y - of_int panel_height / 2
                 else if baseline = ''bottom'' then anchor_y - of_int panel_height
                 else anchor_y);
          horizontal_margin = (if panel_width + 2 * TEXT_VIEWPORT_MARGIN_PX > viewport_width
                               then 0 else TEXT_VIEWPORT_MARGIN_PX);
          vertical_margin = (if panel_height + 2 * TEXT_VIEWPORT_MARGIN_PX > viewport_height
                             then 0 else TEXT_VIEWPORT_MARGIN_PX);
          min_left = horizontal_margin;
          min_top = vertical_margin;
          max_left = max (viewport_width - panel_width - horizontal_margin) min_left;
          max_top = max (viewport_height - panel_height - vertical_margin) min_top;
          clamped_left = clamp left (of_int min_left) (of_int max_left);
          clamped_top = clamp top (of_int min_top) (of_int max_top);
          resolved_x = (if align = ''center'' then clamped_left + of_int panel_width / 2
                        else if align = ''right'' then clamped_left + of_int panel_width
                        else clamped_left);
          resolved_y = (if baseline = ''middle'' then clamped_top + of_int panel_height / 2
                        else if baseline = ''bottom'' then clamped_top + of_int panel_height
                        else clamped_top)
      in (py_round resolved_x, py_round resolved_y,
          (clamped_left, clamped_top,
           clamped_left + of_int panel_width, clamped_top + of_int panel_height)))"

definition rects_overlap :: "rect \<Rightarrow> rect \<Rightarrow> real \<Rightarrow> bool" where
  "rects_overlap rect_a rect_b buffer =
     (case rect_a of (a_left, a_top, a_right, a_bottom) \<Rightarrow>
      case rect_b of (b_left, b_top, b_right, b_bottom) \<Rightarrow>
        a_left < b_right - buffer \<and> a_right > b_left + buffer \<and>
        a_top < b_bottom - buffer \<and> a_bottom > b_top + buffer)"

definition intersection_area :: "rect \<Rightarrow> rect \<Rightarrow> real" where
  "intersection_area rect_a rect_b =
     (case rect_a of (a_left, a_top, a_right, a_bottom) \<Rightarrow>
      case rect_b of (b_left, b_top, b_right, b_bottom) \<Rightarrow>
        max 0 (min a_right b_right - max a_left b_left)
        * max 0 (min a_bottom b_bottom - max a_top b_top))"

text \<open>The entries of the cache that a check for the text \<open>ignore_text_id\<close> looks at.\<close>

definition others :: "(string \<times> rect) list \<Rightarrow> string option \<Rightarrow> (string \<times> rect) list" where
  "others cache ignore_text_id =
     filter (\<lambda>entry. \<not> (truthy ignore_text_id \<and> fst entry = the ignore_text_id)) cache"

definition has_text_overlap :: "(string \<times> rect) list \<Rightarrow> rect \<Rightarrow> string option \<Rightarrow> bool" where
  "has_text_overlap cache r ignore_text_id =
     list_ex (\<lambda>entry. rects_overlap r (snd entry) TEXT_OVERLAP_BUFFER_PX)
       (others cache ignore_text_id)"

definition overlap_score :: "(string \<times> rect) list \<Rightarrow> rect \<Rightarrow> string option \<Rightarrow> real" where
  "overlap_score cache r ignore_text_id =
     sum_list (map (\<lambda>entry. intersection_area r (snd entry)) (others cache ignore_text_id))"

definition ring_offsets :: "nat \<Rightarrow> (int \<times> int) list" where
  "ring_offsets ring =
     (let delta = int ring * TEXT_LAYOUT_STEP_PX
      in [(0, - delta), (0, delta), (delta, 0), (- delta, 0),
          (delta, - delta), (- delta, - delta), (delta, delta), (- delta, delta),
          (2 * delta, 0), (- 2 * delta, 0), (0, 2 * delta), (0, - 2 * delta)])"

definition all_offsets :: "(int \<times> int) list" where
  "all_offsets = concat (map ring_offsets [1..<TEXT_LAYOUT_MAX_RINGS + 1])"

definition manhattan :: "int \<times> int \<Rightarrow> int" where
  "manhattan off = \<bar>fst off\<bar> + \<bar>snd off\<bar>"

definition rect_of :: "placement \<Rightarrow> rect" where
  "rect_of p = snd (snd p)"

text \<open>
  The two nested loops over rings and offsets, run over the list of offsets that is left;
  \<open>place off\<close> is the candidate \<open>_anchor_to_rect(anchor_x + dx, anchor_y + dy, ...)\<close>.
\<close>

fun ring_search ::
  "(int \<times> int \<Rightarrow> placement) \<Rightarrow> (string \<times> rect) list \<Rightarrow> string option \<Rightarrow>
   (int \<times> int) list \<Rightarrow> placement \<Rightarrow> real \<Rightarrow> int \<Rightarrow> placement" where
  "ring_search place cache text_id [] best best_score best_distance = best"
| "ring_search place cache text_id (off # rest) best best_score best_distance =
     (let cand = place off in
      if \<not> has_text_overlap cache (rect_of cand) text_id then cand
      else
        (let score = overlap_score cache (rect_of cand) text_id;
             distance = manhattan off
         in if score < best_score \<or> (score = best_score \<and> distance < best_distance)
            then ring_search place cache text_id rest cand score distance
            else ring_search place cache text_id rest best best_score best_distance))"

definition candidate ::
  "(string \<Rightarrow> int \<Rightarrow> int \<times> int) \<Rightarrow> int \<times> int \<Rightarrow> int \<Rightarrow> int \<Rightarrow> string \<Rightarrow> int \<Rightarrow>
   string option \<Rightarrow> string option \<Rightarrow> int \<times> int \<Rightarrow> placement" where
  "candidate estimate viewport anchor_x anchor_y text font_size align baseline off =
     anchor_to_rect (of_int (anchor_x + fst off)) (of_int (anchor_y + snd off))
       (fst (estimate text font_size)) (snd (estimate text font_size))
       (normalize_align align) (normalize_baseline baseline) (fst viewport) (snd viewport)"

definition resolve_non_overlapping_anchor ::
  "(string \<Rightarrow> int \<Rightarrow> int \<times> int) \<Rightarrow> int \<times> int \<Rightarrow> (string \<times> rect) list \<Rightarrow>
   int \<Rightarrow> int \<Rightarrow> string \<Rightarrow> int \<Rightarrow> string option \<Rightarrow> string option \<Rightarrow> string option \<Rightarrow> placement" where
  "resolve_non_overlapping_anchor estimate viewport cache anchor_x anchor_y text font_size
       align baseline text_id =
     (let place = candidate estimate viewport anchor_x anchor_y text font_size align baseline;
          base = place (0, 0)
      in if \<not> has_text_overlap cache (rect_of base) text_id then base
         else ring_search place cache text_id all_offsets base
                (overlap_score cache (rect_of base) text_id) 0)"

text \<open>
  \<open>_create_text_non_overlapping\<close>: the id is the given one, or \<open>text_\<close> followed by
  eight hexadecimal digits \<open>uuid8\<close> drawn for the call. The cache is updated when the
  draw command has been sent (\<open>sent\<close>); when sending raises, the cache is left as it is.
\<close>

definition resolved_text_id :: "string option \<Rightarrow> string \<Rightarrow> string" where
  "resolved_text_id text_id uuid8 = (if truthy text_id then the text_id else ''text_'' @ uuid8)"

definition create_text_non_overlapping ::
  "(string \<Rightarrow> int \<Rightarrow> int \<times> int) \<Rightarrow> int \<times> int \<Rightarrow> string \<Rightarrow> bool \<Rightarrow> (string \<times> rect) list \<Rightarrow>
   int \<Rightarrow> int \<Rightarrow> string \<Rightarrow> string option \<Rightarrow> int \<Rightarrow> string option \<Rightarrow> string option \<Rightarrow>
   (string \<times> rect) list" where
  "create_text_non_overlapping estimate viewport uuid8 sent cache x y text text_id font_size
       align baseline =
     (let tid = resolved_text_id text_id uuid8;
          p = resolve_non_overlapping_anchor estimate viewport cache x y text
                (if font_size \<noteq> 0 then font_size else 18) align baseline (Some tid)
      in if sent then AList.update tid (rect_of p) cache else cache)"

text \<open>The cache holds pairwise non-overlapping rectangles (buffer 0) under distinct ids.\<close>

definition non_overlapping :: "(string \<times> rect) list \<Rightarrow> bool" where
  "non_overlapping cache =
     (distinct (map fst cache) \<and>
      (\<forall>a \<in> set cache. \<forall>b \<in> set cache.
         fst a \<noteq> fst b \<longrightarrow> \<not> rects_overlap (snd a) (snd b) TEXT_OVERLAP_BUFFER_PX))"

text \<open>
  A candidate is at least as good as another when its overlap area is smaller, or equal
  with an offset that is not farther from the requested anchor.
\<close>

definition no_worse ::
  "(int \<times> int \<Rightarrow> placement) \<Rightarrow> (string \<times> rect) list \<Rightarrow> string option \<Rightarrow>
   int \<times> int \<Rightarrow> int \<times> int \<Rightarrow> bool" where
  "no_worse place cache text_id a b =
     (overlap_score cache (rect_of (place a)) text_id < overlap_score cache (rect_of (place b)) text_id \<or>
      overlap_score cache (rect_of (place a)) text_id = overlap_score cache (rect_of (place b)) text_id \<and>
      manhattan a \<le> manhattan b)"

section \<open>Properties: screenshot storage\<close>

lemma get_stored_screenshot_clears:
  "stored_screenshot (snd (get_stored_screenshot display s)) = None"
  by (simp add: get_stored_screenshot_def ImageGrab_grab_def split: option.splits)

text \<open>
  C10. The stored pre-overlay screenshot is one-shot. Whatever the state and the display,
  the slot is \<open>None\<close> after \<open>get_stored_screenshot\<close>; and after a successful
  \<open>store_screenshot\<close> the first call hands out the stored image, while a call that
  follows at once returns, when it returns an image, the image of a new grab (the one
  numbered by the grab counter at that call), which is not the stored one.
\<close>

theorem stored_screenshot_one_shot:
  "stored_screenshot (snd (get_stored_screenshot display s)) = None \<and>
   (store_screenshot display s = (Inr img, s1) \<longrightarrow>
      fst (get_stored_screenshot display s1) = Inr img \<and>
      stored_screenshot (snd (get_stored_screenshot display s1)) = None \<and>
      (\<forall>img'. fst (get_stored_screenshot display (snd (get_stored_screenshot display s1))) = Inr img' \<longrightarrow>
         img' \<noteq> img \<and> img' = grabs s1 \<and> display (grabs s1)))"
  by (auto simp: get_stored_screenshot_def store_screenshot_def ImageGrab_grab_def
           split: option.splits if_splits)

theorem stored_screenshot_one_shot_witness:
  "store_screenshot (\<lambda>n. True) \<lparr>stored_screenshot = None, grabs = 0\<rparr>
     = (Inr 0, \<lparr>stored_screenshot = Some 0, grabs = 1\<rparr>) \<and>
   fst (get_stored_screenshot (\<lambda>n. True) \<lparr>stored_screenshot = Some 0, grabs = 1\<rparr>) = Inr 0 \<and>
   fst (get_stored_screenshot (\<lambda>n. True)
          (snd (get_stored_screenshot (\<lambda>n. True) \<lparr>stored_screenshot = Some 0, grabs = 1\<rparr>))) = Inr 1"
  using stored_screenshot_one_shot
    [of "\<lambda>n. True" "\<lparr>stored_screenshot = None, grabs = 0\<rparr>" 0 "\<lparr>stored_screenshot = Some 0, grabs = 1\<rparr>"]
  by (simp add: get_stored_screenshot_def store_screenshot_def ImageGrab_grab_def)

section \<open>Properties: batch normalizer\<close>

lemma normalize_cases:
  "length cs \<le> 1 \<and> normalize_function_call_batch cs = cs \<or>
   (\<exists>a. normalize_function_call_batch cs = [a]) \<or>
   position_click_pair (normalize_function_call_batch cs) \<or>
   position_click_complete_triple (normalize_function_call_batch cs) \<or>
   click_complete_pair (normalize_function_call_batch cs)"
proof (cases cs)
  case Nil
  then show ?thesis by (simp add: normalize_function_call_batch_def)
next
  case (Cons a as)
  note outer = Cons
  show ?thesis
  proof (cases as)
    case Nil
    with outer show ?thesis by (simp add: normalize_function_call_batch_def)
  next
    case (Cons b bs)
    note mid = Cons
    show ?thesis
    proof (cases bs)
      case Nil
      with outer mid show ?thesis
        by (simp add: normalize_function_call_batch_def Let_def)
    next
      case (Cons c ds)
      with outer mid show ?thesis
        by (simp add: normalize_function_call_batch_def Let_def)
    qed
  qed
qed

lemma normalize_is_prefix:
  "\<exists>n. normalize_function_call_batch cs = take n cs"
proof (cases "length cs \<le> 1")
  case True
  then have "normalize_function_call_batch cs = take (length cs) cs"
    by (simp add: normalize_function_call_batch_def)
  then show ?thesis by blast
next
  case False
  then obtain a as where cs: "cs = a # as" by (cases cs) auto
  have one: "[a] = take 1 cs" using cs by simp
  have "normalize_function_call_batch cs = take 1 cs \<or>
        normalize_function_call_batch cs = take 2 cs \<or>
        normalize_function_call_batch cs = take 3 cs"
    using False cs one by (simp add: normalize_function_call_batch_def Let_def)
  then show ?thesis by blast
qed

lemma click_not_positioning: "is_click c \<Longrightarrow> \<not> is_positioning c"
  by (auto simp: is_click_def is_positioning_def CLICK_TOOL_TO_TYPE_def POSITIONING_TOOLS_def)

lemma click_not_complete: "is_click c \<Longrightarrow> \<not> is_complete c"
  by (auto simp: is_click_def is_complete_def CLICK_TOOL_TO_TYPE_def)

lemma pair_click_count: "position_click_pair cs \<Longrightarrow> click_count cs = 1"
  by (cases cs rule: position_click_pair.cases)
     (auto simp: click_count_def dest: click_not_positioning)

lemma triple_click_count: "position_click_complete_triple cs \<Longrightarrow> click_count cs = 1"
  by (cases cs rule: position_click_complete_triple.cases)
     (auto simp: click_count_def dest: click_not_positioning click_not_complete)

lemma click_complete_click_count: "click_complete_pair cs \<Longrightarrow> click_count cs = 1"
  by (cases cs rule: click_complete_pair.cases)
     (auto simp: click_count_def dest: click_not_complete)

lemma few_clicks_not_consecutive: "click_count cs \<le> 1 \<Longrightarrow> no_consecutive_clicks cs"
  by (induction cs rule: no_consecutive_clicks.induct) (auto simp: click_count_def split: if_splits)

text \<open>
  C5, the claim as stated fails: a click followed by \<open>task_is_complete\<close> is returned as a
  pair, which is none of the three listed shapes.
\<close>

theorem normalize_batch_counterexample:
  "normalize_function_call_batch [call ''click_left_click'', call ''task_is_complete'']
     = [call ''click_left_click'', call ''task_is_complete''] \<and>
   \<not> listed_batch_shape [call ''click_left_click'', call ''task_is_complete'']"
  by (simp add: normalize_function_call_batch_def listed_batch_shape_def call_def Let_def
        is_click_def is_complete_def is_positioning_def CLICK_TOOL_TO_TYPE_def POSITIONING_TOOLS_def)

text \<open>
  C5, amended. For every list of model function calls the normalized batch is a prefix of
  the list (extra calls are dropped) and is either at most one call, or a
  positioning-then-click pair, or a positioning-then-click-then-\<open>task_is_complete\<close>
  triple, or a click-then-\<open>task_is_complete\<close> pair; it holds at most one click call, so
  never two consecutive clicks.
\<close>

theorem normalize_batch_shapes:
  "(\<exists>n. normalize_function_call_batch cs = take n cs) \<and>
   (listed_batch_shape (normalize_function_call_batch cs) \<or>
    click_complete_pair (normalize_function_call_batch cs)) \<and>
   click_count (normalize_function_call_batch cs) \<le> 1 \<and>
   no_consecutive_clicks (normalize_function_call_batch cs)"
proof -
  let ?r = "normalize_function_call_batch cs"
  have shape: "listed_batch_shape ?r \<or> click_complete_pair ?r"
    using normalize_cases [of cs] by (auto simp: listed_batch_shape_def)
  have clicks: "click_count ?r \<le> 1"
  proof -
    have "length ?r \<le> 1 \<or> position_click_pair ?r \<or> position_click_complete_triple ?r
          \<or> click_complete_pair ?r"
      using shape by (auto simp: listed_batch_shape_def)
    moreover have "length ?r \<le> 1 \<Longrightarrow> click_count ?r \<le> 1"
      unfolding click_count_def by (meson length_filter_le order_trans)
    ultimately show ?thesis
      using pair_click_count triple_click_count click_complete_click_count by force
  qed
  show ?thesis
    using normalize_is_prefix [of cs] shape clicks few_clicks_not_consecutive by blast
qed

theorem normalize_batch_shapes_witness:
  "normalize_function_call_batch
     [call ''go_to_element'', call ''click_left_click'', call ''click_right_click'']
     = [call ''go_to_element'', call ''click_left_click''] \<and>
   click_count (normalize_function_call_batch
     [call ''go_to_element'', call ''click_left_click'', call ''click_right_click'']) \<le> 1"
  using normalize_batch_shapes
    [of "[call ''go_to_element'', call ''click_left_click'', call ''click_right_click'']"]
  by (simp add: normalize_function_call_batch_def call_def Let_def
        is_click_def is_complete_def is_positioning_def CLICK_TOOL_TO_TYPE_def POSITIONING_TOOLS_def)

section \<open>Properties: coordinate normalization\<close>





section \<open>Properties: overlay input de-duplication\<close>


lemma handle_overlay_input_handler:
  "on_overlay_input (fst (handle_overlay_input s now p)) = on_overlay_input s"
  by (simp add: handle_overlay_input_def Let_def)






lemma handle_events_Cons:
  "handle_events s ((now, p) # es) =
     (fst (handle_events (fst (handle_overlay_input s now p)) es),
      snd (handle_overlay_input s now p) # snd (handle_events (fst (handle_overlay_input s now p)) es))"
  by (simp add: Let_def)

lemma handle_events_length: "length (snd (handle_events s es)) = length es"
  by (induction es arbitrary: s) (auto simp: Let_def)








section \<open>Properties: direct-response sanitization\<close>










section \<open>Properties: the chaining loop\<close>

lemma direct_responses_append:
  "direct_responses (xs @ ys) = direct_responses xs @ direct_responses ys"
  by (simp add: direct_responses_def)

lemma runs_of_append: "runs_of sig (xs @ ys) = runs_of sig xs + runs_of sig ys"
  by (simp add: runs_of_def)



lemma get_count_upd:
  "get_count (m(sig \<mapsto> c)) sig' = (if sig' = sig then c else get_count m sig')"
  by (simp add: get_count_def)



















section \<open>Properties: text panel placement\<close>

lemma rects_overlap_sym: "rects_overlap a b buffer = rects_overlap b a buffer"
  by (cases a, cases b) (auto simp: rects_overlap_def)

lemma has_text_overlap_iff:
  "has_text_overlap cache r tid =
     (\<exists>entry \<in> set (others cache tid). rects_overlap r (snd entry) TEXT_OVERLAP_BUFFER_PX)"
  by (simp add: has_text_overlap_def list_ex_iff)

lemma ring_search_free:
  assumes "\<exists>off \<in> set offs. \<not> has_text_overlap cache (rect_of (place off)) tid"
  shows "\<not> has_text_overlap cache
            (rect_of (ring_search place cache tid offs best best_score best_distance)) tid"
  using assms
proof (induction offs arbitrary: best best_score best_distance)
  case Nil
  then show ?case by simp
next
  case (Cons off rest)
  show ?case
  proof (cases "has_text_overlap cache (rect_of (place off)) tid")
    case False
    then show ?thesis by (simp add: Let_def)
  next
    case True
    then have "\<exists>off \<in> set rest. \<not> has_text_overlap cache (rect_of (place off)) tid"
      using Cons.prems by auto
    then show ?thesis using True Cons.IH by (simp add: Let_def)
  qed
qed

lemma no_worse_refl: "no_worse place cache tid a a"
  by (simp add: no_worse_def)

lemma no_worse_trans:
  "no_worse place cache tid a b \<Longrightarrow> no_worse place cache tid b c \<Longrightarrow> no_worse place cache tid a c"
  unfolding no_worse_def by linarith

lemma ring_search_min:
  assumes "\<forall>off \<in> set offs. has_text_overlap cache (rect_of (place off)) tid"
    and "best = place ob"
    and "best_score = overlap_score cache (rect_of (place ob)) tid"
    and "best_distance = manhattan ob"
  shows "\<exists>w \<in> insert ob (set offs).
           ring_search place cache tid offs best best_score best_distance = place w \<and>
           no_worse place cache tid w ob \<and>
           (\<forall>off \<in> set offs. no_worse place cache tid w off)"
  using assms
proof (induction offs arbitrary: best best_score best_distance ob)
  case Nil
  then show ?case by (simp add: no_worse_refl)
next
  case (Cons off rest)
  have over: "has_text_overlap cache (rect_of (place off)) tid"
    and rest: "\<forall>c \<in> set rest. has_text_overlap cache (rect_of (place c)) tid"
    using Cons.prems(1) by simp_all
  let ?score = "overlap_score cache (rect_of (place off)) tid"
  show ?case
  proof (cases "?score < best_score \<or> (?score = best_score \<and> manhattan off < best_distance)")
    case True
    then have better: "no_worse place cache tid off ob"
      using Cons.prems(3,4) by (auto simp: no_worse_def)
    have run: "ring_search place cache tid (off # rest) best best_score best_distance
                 = ring_search place cache tid rest (place off) ?score (manhattan off)"
      using over True by (auto simp: Let_def)
    obtain w where w: "w \<in> insert off (set rest)"
        "ring_search place cache tid rest (place off) ?score (manhattan off) = place w"
        "no_worse place cache tid w off" "\<forall>c \<in> set rest. no_worse place cache tid w c"
      using Cons.IH [OF rest refl refl refl, of off] by blast
    have "no_worse place cache tid w ob" using w(3) better by (rule no_worse_trans)
    then show ?thesis using w run by auto
  next
    case False
    then have keep: "no_worse place cache tid ob off"
      using Cons.prems(3,4) by (auto simp: no_worse_def)
    have run: "ring_search place cache tid (off # rest) best best_score best_distance
                 = ring_search place cache tid rest best best_score best_distance"
      using over False by (auto simp: Let_def)
    obtain w where w: "w \<in> insert ob (set rest)"
        "ring_search place cache tid rest best best_score best_distance = place w"
        "no_worse place cache tid w ob" "\<forall>c \<in> set rest. no_worse place cache tid w c"
      using Cons.IH [OF rest Cons.prems(2,3,4)] by blast
    have "no_worse place cache tid w off" using w(3) keep by (rule no_worse_trans)
    then show ?thesis using w run by auto
  qed
qed

lemma resolve_free:
  assumes "\<exists>off \<in> set ((0, 0) # all_offsets).
             \<not> has_text_overlap cache
                 (rect_of (candidate estimate viewport x y text font_size align baseline off)) tid"
  shows "\<not> has_text_overlap cache
            (rect_of (resolve_non_overlapping_anchor estimate viewport cache x y text font_size
                        align baseline tid)) tid"
proof (cases "has_text_overlap cache
                (rect_of (candidate estimate viewport x y text font_size align baseline (0, 0))) tid")
  case False
  then show ?thesis by (simp add: resolve_non_overlapping_anchor_def Let_def)
next
  case True
  then have "\<exists>off \<in> set all_offsets.
             \<not> has_text_overlap cache
                 (rect_of (candidate estimate viewport x y text font_size align baseline off)) tid"
    using assms by auto
  then show ?thesis using True
    by (simp add: resolve_non_overlapping_anchor_def Let_def ring_search_free)
qed

lemma resolve_min:
  assumes "\<forall>off \<in> set ((0, 0) # all_offsets).
             has_text_overlap cache
               (rect_of (candidate estimate viewport x y text font_size align baseline off)) tid"
  shows "\<exists>w \<in> set ((0, 0) # all_offsets).
           resolve_non_overlapping_anchor estimate viewport cache x y text font_size
             align baseline tid
             = candidate estimate viewport x y text font_size align baseline w \<and>
           (\<forall>off \<in> set ((0, 0) # all_offsets).
              no_worse (candidate estimate viewport x y text font_size align baseline) cache tid w off)"
proof -
  let ?place = "candidate estimate viewport x y text font_size align baseline"
  have base: "has_text_overlap cache (rect_of (?place (0, 0))) tid"
    and rest: "\<forall>off \<in> set all_offsets. has_text_overlap cache (rect_of (?place off)) tid"
    using assms by simp_all
  have zero: "(0 :: int) = manhattan (0, 0)" by (simp add: manhattan_def)
  obtain w where w: "w \<in> insert (0, 0) (set all_offsets)"
      "ring_search ?place cache tid all_offsets (?place (0, 0))
         (overlap_score cache (rect_of (?place (0, 0))) tid) 0 = ?place w"
      "no_worse ?place cache tid w (0, 0)"
      "\<forall>off \<in> set all_offsets. no_worse ?place cache tid w off"
    using ring_search_min [OF rest refl refl zero] by blast
  have "resolve_non_overlapping_anchor estimate viewport cache x y text font_size
          align baseline tid = ?place w"
    using base w(2) by (simp add: resolve_non_overlapping_anchor_def Let_def)
  then show ?thesis using w by auto
qed

lemma set_update_subset:
  "distinct (map fst al) \<Longrightarrow> set (AList.update k v al) \<subseteq> insert (k, v) {e \<in> set al. fst e \<noteq> k}"
  by (induction al) (auto simp: rev_image_eqI)

lemma resolved_text_id_truthy: "truthy (Some (resolved_text_id text_id uuid8))"
  by (cases text_id) (auto simp: resolved_text_id_def truthy_def)

lemma update_keeps_non_overlapping:
  assumes inv: "non_overlapping cache" and tid: "truthy (Some tid)"
    and free: "\<not> has_text_overlap cache r (Some tid)"
  shows "non_overlapping (AList.update tid r cache)"
proof -
  have d0: "distinct (map fst cache)" using inv by (simp add: non_overlapping_def)
  have d: "distinct (map fst (AList.update tid r cache))"
    using d0 by (simp add: distinct_update)
  have old: "\<And>a b. a \<in> set cache \<Longrightarrow> b \<in> set cache \<Longrightarrow> fst a \<noteq> fst b \<Longrightarrow>
                \<not> rects_overlap (snd a) (snd b) TEXT_OVERLAP_BUFFER_PX"
    using inv by (auto simp: non_overlapping_def)
  have new: "\<And>b. b \<in> set cache \<Longrightarrow> fst b \<noteq> tid \<Longrightarrow>
                \<not> rects_overlap r (snd b) TEXT_OVERLAP_BUFFER_PX"
  proof -
    fix b assume "b \<in> set cache" and "fst b \<noteq> tid"
    then have "b \<in> set (others cache (Some tid))" by (simp add: others_def)
    then show "\<not> rects_overlap r (snd b) TEXT_OVERLAP_BUFFER_PX"
      using free unfolding has_text_overlap_iff by blast
  qed
  have "\<not> rects_overlap (snd a) (snd b) TEXT_OVERLAP_BUFFER_PX"
    if a: "a \<in> set (AList.update tid r cache)" and b: "b \<in> set (AList.update tid r cache)"
      and ne: "fst a \<noteq> fst b" for a b
  proof -
    have ca: "a = (tid, r) \<or> a \<in> set cache \<and> fst a \<noteq> tid"
      using a set_update_subset [OF d0, of tid r] by auto
    have cb: "b = (tid, r) \<or> b \<in> set cache \<and> fst b \<noteq> tid"
      using b set_update_subset [OF d0, of tid r] by auto
    show ?thesis
      using ca cb ne old [of a b] new [of b] new [of a] rects_overlap_sym [of "snd a" r]
      by auto
  qed
  then show ?thesis using d by (auto simp: non_overlapping_def)
qed

text \<open>
  C6. Text panel placement, for the candidates made of the base anchor and the 10 rings
  of 12 offsets on the 28 pixel grid. Whenever one of them yields a rectangle that
  overlaps no other live cached text rectangle (buffer 0), the accepted placement is
  overlap-free, and a cache of pairwise non-overlapping rectangles stays so when the
  accepted rectangle is recorded. When no candidate is overlap-free, the accepted
  placement is that of a candidate whose total overlap area against the cache is
  minimal, and whose Manhattan offset from the requested anchor is the smallest among
  the candidates of that area.
\<close>

theorem text_placement:
  "((\<exists>off \<in> set ((0, 0) # all_offsets).
       \<not> has_text_overlap cache
           (rect_of (candidate estimate viewport x y text font_size align baseline off)) tid) \<longrightarrow>
    \<not> has_text_overlap cache
        (rect_of (resolve_non_overlapping_anchor estimate viewport cache x y text font_size
                    align baseline tid)) tid) \<and>
   (non_overlapping cache \<and>
    (\<exists>off \<in> set ((0, 0) # all_offsets).
       \<not> has_text_overlap cache
           (rect_of (candidate estimate viewport x y text (if font_size \<noteq> 0 then font_size else 18)
                       align baseline off))
           (Some (resolved_text_id text_id uuid8))) \<longrightarrow>
    non_overlapping
      (create_text_non_overlapping estimate viewport uuid8 sent cache x y text text_id font_size
         align baseline)) \<and>
   ((\<forall>off \<in> set ((0, 0) # all_offsets).
       has_text_overlap cache
         (rect_of (candidate estimate viewport x y text font_size align baseline off)) tid) \<longrightarrow>
    (\<exists>w \<in> set ((0, 0) # all_offsets).
       resolve_non_overlapping_anchor estimate viewport cache x y text font_size align baseline tid
         = candidate estimate viewport x y text font_size align baseline w \<and>
       (\<forall>off \<in> set ((0, 0) # all_offsets).
          no_worse (candidate estimate viewport x y text font_size align baseline) cache tid w off)))"
proof -
  have keep: "non_overlapping
      (create_text_non_overlapping estimate viewport uuid8 sent cache x y text text_id font_size
         align baseline)"
    if inv: "non_overlapping cache"
      and free: "\<exists>off \<in> set ((0, 0) # all_offsets).
       \<not> has_text_overlap cache
           (rect_of (candidate estimate viewport x y text (if font_size \<noteq> 0 then font_size else 18)
                       align baseline off))
           (Some (resolved_text_id text_id uuid8))"
  proof (cases sent)
    case False
    then show ?thesis using inv by (simp add: create_text_non_overlapping_def Let_def)
  next
    case True
    have "\<not> has_text_overlap cache
            (rect_of (resolve_non_overlapping_anchor estimate viewport cache x y text
                        (if font_size \<noteq> 0 then font_size else 18) align baseline
                        (Some (resolved_text_id text_id uuid8))))
            (Some (resolved_text_id text_id uuid8))"
      using free by (rule resolve_free)
    then have "non_overlapping
                 (AList.update (resolved_text_id text_id uuid8)
                    (rect_of (resolve_non_overlapping_anchor estimate viewport cache x y text
                        (if font_size \<noteq> 0 then font_size else 18) align baseline
                        (Some (resolved_text_id text_id uuid8)))) cache)"
      by (rule update_keeps_non_overlapping [OF inv resolved_text_id_truthy])
    then show ?thesis using True by (simp add: create_text_non_overlapping_def Let_def)
  qed
  show ?thesis
    apply (intro conjI impI)
      apply (erule resolve_free)
     apply (erule conjE, erule (1) keep)
    apply (erule resolve_min)
    done
qed

end
